theory Spec2Isabelle
  imports Main
begin

section \<open>The status store (database/models.py)\<close>

text \<open>
  The engine keeps its bookkeeping in three SQL tables, reached through SQLAlchemy
  sessions. A table is modelled as the list of its rows in insertion order, a row as a
  record with the columns of the model class. Nullable columns are options, time stamps
  are natural numbers (the reading of the clock), the JSON columns are kept opaque, the
  surrogate keys are left out. Storage itself is taken to work: a session never fails.
\<close>

type_synonym timestamp = nat

record sync_repository =
  name :: string
  github_url :: "string option"
  gitea_url :: "string option"
  sync_status :: string
  last_sync :: "timestamp option"
  conflict_count :: int
  created_at :: timestamp
  updated_at :: timestamp
  config :: "string option"

text \<open>What a sync attempt hands back to its caller, and what an attempt can raise.\<close>

datatype sync_result =
    Created string string
  | Synced "string list"
  | ConflictResolved "string list"

datatype error =
    SyncConflictError "string list"
  | ValueError
  | GitCommandError
  | HTTPError

datatype log_details = ResultDetails sync_result | ErrorDetails error

record sync_log =
  repository_name :: string
  log_status :: string
  details :: log_details
  timestamp :: timestamp

record sync_conflict =
  conflict_repository :: string
  conflict_type :: string
  branch_name :: "string option"
  conflict_github_commit :: "string option"
  conflict_gitea_commit :: "string option"
  conflict_details :: "string option"
  resolved :: bool
  resolution_strategy :: "string option"
  conflict_created_at :: timestamp
  resolved_at :: "timestamp option"

text \<open>
  One push that git was asked to carry out: \<open>Push remote src dst force\<close> is
  \<^verbatim>\<open>repo.git.push(remote, f"{src}:{dst}")\<close>, with \<^verbatim>\<open>"--force"\<close> appended when the flag
  is set; \<open>PushTags remote\<close> is \<^verbatim>\<open>repo.git.push(remote, "--tags")\<close>.
\<close>

datatype push = Push string string string bool | PushTags string

text \<open>
  The state the engine works on: the three tables, the pushes that the two platforms have
  received so far, the repositories created on a platform (platform and name), the
  warnings written by the analyzer, and the engine's health flag.
\<close>

record state =
  repositories :: "sync_repository list"
  logs :: "sync_log list"
  conflicts :: "sync_conflict list"
  pushed :: "push list"
  created :: "(string \<times> string) list"
  warnings :: "(string \<times> error) list"
  healthy :: bool

subsection \<open>Queries and updates\<close>

text \<open>\<^verbatim>\<open>session.query(SyncRepository).filter_by(name=repo_name).first()\<close>\<close>

definition first_by_name :: "string \<Rightarrow> sync_repository list \<Rightarrow> sync_repository option" where
  "first_by_name repo_name rows = find (\<lambda>r. name r = repo_name) rows"

text \<open>Writing back the one row that \<open>first_by_name\<close> returned; the other rows stay.\<close>

fun replace_first :: "string \<Rightarrow> sync_repository \<Rightarrow> sync_repository list \<Rightarrow> sync_repository list" where
  "replace_first repo_name r' [] = []"
| "replace_first repo_name r' (r # rows) =
     (if name r = repo_name then r' # rows else r # replace_first repo_name r' rows)"

text \<open>
  The column \<open>updated_at\<close> carries an \<^verbatim>\<open>onupdate\<close> hook: when a commit writes a row whose
  attributes have really changed, the column is set to the time of the write.
\<close>

definition commit_row :: "timestamp \<Rightarrow> sync_repository \<Rightarrow> sync_repository \<Rightarrow> sync_repository" where
  "commit_row now old new = (if new = old then old else new\<lparr>updated_at := now\<rparr>)"

text \<open>
  \<^verbatim>\<open>_update_repo_status\<close>: look the row up; when there is one, set its status, stamp
  \<open>last_sync\<close> for \<^verbatim>\<open>"synced"\<close>, count one more conflict for \<^verbatim>\<open>"conflict"\<close>, and commit.
  When there is none, the body of the \<^verbatim>\<open>if repo:\<close> is skipped.
\<close>

definition set_status :: "timestamp \<Rightarrow> string \<Rightarrow> sync_repository \<Rightarrow> sync_repository" where
  "set_status now status repo =
     (let repo1 = repo\<lparr>sync_status := status\<rparr>
      in if status = ''synced'' then repo1\<lparr>last_sync := Some now\<rparr>
         else if status = ''conflict'' then repo1\<lparr>conflict_count := conflict_count repo1 + 1\<rparr>
         else repo1)"

definition update_repo_status :: "timestamp \<Rightarrow> string \<Rightarrow> string \<Rightarrow> state \<Rightarrow> state" where
  "update_repo_status now repo_name status st =
     (case first_by_name repo_name (repositories st) of
        None \<Rightarrow> st
      | Some repo \<Rightarrow>
          st\<lparr>repositories :=
               replace_first repo_name (commit_row now repo (set_status now status repo))
                 (repositories st)\<rparr>)"

text \<open>
  \<^verbatim>\<open>_log_sync_result\<close> appends one row to the log table; the columns \<open>source\<close>,
  \<open>duration_seconds\<close> and \<open>error_message\<close> are never filled by the engine.
\<close>

definition log_sync_result :: "timestamp \<Rightarrow> string \<Rightarrow> string \<Rightarrow> log_details \<Rightarrow> state \<Rightarrow> state" where
  "log_sync_result now repo_name status dets st =
     st\<lparr>logs := logs st @
            [\<lparr>repository_name = repo_name, log_status = status, details = dets,
              timestamp = now\<rparr>]\<rparr>"

text \<open>
  \<^verbatim>\<open>create_conflict_record\<close>, the one function of the store that inserts into the table
  of conflicts. The engine has no call of it.
\<close>

definition create_conflict_record ::
  "timestamp \<Rightarrow> string \<Rightarrow> string \<Rightarrow> string option \<Rightarrow> string option \<Rightarrow> string option
     \<Rightarrow> state \<Rightarrow> state" where
  "create_conflict_record now repo_name ctype branch github_sha gitea_sha st =
     st\<lparr>conflicts := conflicts st @
            [\<lparr>conflict_repository = repo_name, conflict_type = ctype, branch_name = branch,
              conflict_github_commit = github_sha, conflict_gitea_commit = gitea_sha,
              conflict_details = None, resolved = False, resolution_strategy = None,
              conflict_created_at = now, resolved_at = None\<rparr>]\<rparr>"

section \<open>The working clone (GitPython)\<close>

text \<open>
  The engine sees a repository through GitPython. Of a working clone the analysis uses
  three things, which are the fields of the model: the names of its references
  (\<^verbatim>\<open>ref.name for ref in repo.refs\<close>: remote-tracking branches are named
  \<^verbatim>\<open>origin/main\<close>, \<^verbatim>\<open>gitea/main\<close>; local heads and tags carry their bare name), the
  resolution of a revision to the identifier of its commit (\<^verbatim>\<open>repo.commit(rev).hexsha\<close>)
  and the commits of a revision range (\<^verbatim>\<open>list(repo.iter_commits("a..b"))\<close>, the commits
  reachable from \<open>b\<close> and not from \<open>a\<close>). The last two can raise. The tags that each
  platform holds are part of the model as well, so that statements about tags can be made.
\<close>

record git_repo =
  refs :: "string list"
  commit :: "string \<Rightarrow> error + string"
  iter_commits :: "string \<Rightarrow> error + string list"
  github_tags :: "(string \<times> string) list"
  gitea_tags :: "(string \<times> string) list"

text \<open>\<^verbatim>\<open>s.startswith(p)\<close> and \<^verbatim>\<open>s.replace(old, "")\<close> of Python strings: the latter scans
  from the left and deletes every occurrence of \<open>old\<close> that does not overlap an earlier
  one.\<close>

definition startswith :: "string \<Rightarrow> string \<Rightarrow> bool" where
  "startswith s p = (take (length p) s = p)"

fun remove_all :: "string \<Rightarrow> string \<Rightarrow> string" where
  "remove_all old [] = []"
| "remove_all old (c # cs) =
     (if old \<noteq> [] \<and> take (length old) (c # cs) = old
      then remove_all old (drop (length old) (c # cs))
      else c # remove_all old cs)"

text \<open>The report of \<^verbatim>\<open>_analyze_repository_differences\<close>, a dictionary with fixed keys.\<close>

record differences =
  has_conflicts :: bool
  github_ahead :: "string list"
  gitea_ahead :: "string list"
  diverged_branches :: "string list"
  new_branches_github :: "string list"
  new_branches_gitea :: "string list"
  new_tags_github :: "string list"
  new_tags_gitea :: "string list"

definition empty_differences :: differences where
  "empty_differences =
     \<lparr>has_conflicts = False, github_ahead = [], gitea_ahead = [], diverged_branches = [],
      new_branches_github = [], new_branches_gitea = [],
      new_tags_github = [], new_tags_gitea = []\<rparr>"

definition github_branches :: "git_repo \<Rightarrow> string list" where
  "github_branches repo =
     map (remove_all ''origin/'') (filter (\<lambda>n. startswith n ''origin/'') (refs repo))"

definition gitea_branches :: "git_repo \<Rightarrow> string list" where
  "gitea_branches repo =
     map (remove_all ''gitea/'') (filter (\<lambda>n. startswith n ''gitea/'') (refs repo))"

text \<open>
  \<^verbatim>\<open>all_branches = github_branches | gitea_branches\<close> is a Python set; the order in which
  the loop visits it is not specified. The model visits each name once, in one fixed
  order; the properties below speak of membership only.
\<close>

definition all_branches :: "git_repo \<Rightarrow> string list" where
  "all_branches repo = remdups (github_branches repo @ gitea_branches repo)"

text \<open>
  The body of the \<^verbatim>\<open>try\<close> block: both tips are resolved, and when their identifiers
  differ, both ranges are listed before the report is touched. Every exception leaves the
  report as it was.
\<close>

definition compare_branches :: "git_repo \<Rightarrow> string \<Rightarrow> differences \<Rightarrow> error + differences" where
  "compare_branches repo branch d =
     (let github_ref = ''origin/'' @ branch; gitea_ref = ''gitea/'' @ branch in
      case commit repo github_ref of
        Inl e \<Rightarrow> Inl e
      | Inr github_commit \<Rightarrow>
      (case commit repo gitea_ref of
        Inl e \<Rightarrow> Inl e
      | Inr gitea_commit \<Rightarrow>
          if github_commit \<noteq> gitea_commit then
            (case iter_commits repo (gitea_ref @ ''..'' @ github_ref) of
               Inl e \<Rightarrow> Inl e
             | Inr github_ahead_commits \<Rightarrow>
             (case iter_commits repo (github_ref @ ''..'' @ gitea_ref) of
               Inl e \<Rightarrow> Inl e
             | Inr gitea_ahead_commits \<Rightarrow>
                 Inr (if github_ahead_commits \<noteq> [] \<and> gitea_ahead_commits \<noteq> []
                      then d\<lparr>diverged_branches := diverged_branches d @ [branch],
                             has_conflicts := True\<rparr>
                      else if github_ahead_commits \<noteq> []
                      then d\<lparr>github_ahead := github_ahead d @ [branch]\<rparr>
                      else if gitea_ahead_commits \<noteq> []
                      then d\<lparr>gitea_ahead := gitea_ahead d @ [branch]\<rparr>
                      else d)))
          else Inr d))"

text \<open>
  One round of the loop over \<open>all_branches\<close>. The second component collects what the
  \<^verbatim>\<open>except\<close> clause writes to the logger: the branch and the error.
\<close>

definition analyze_branch ::
  "git_repo \<Rightarrow> string \<Rightarrow> differences \<times> (string \<times> error) list
     \<Rightarrow> differences \<times> (string \<times> error) list" where
  "analyze_branch repo branch acc =
     (let d = fst acc; logged = snd acc;
          github_exists = (''origin/'' @ branch \<in> set (refs repo));
          gitea_exists = (''gitea/'' @ branch \<in> set (refs repo))
      in if github_exists \<and> \<not> gitea_exists
         then (d\<lparr>new_branches_github := new_branches_github d @ [branch]\<rparr>, logged)
         else if gitea_exists \<and> \<not> github_exists
         then (d\<lparr>new_branches_gitea := new_branches_gitea d @ [branch]\<rparr>, logged)
         else if github_exists \<and> gitea_exists
         then (case compare_branches repo branch d of
                 Inl e \<Rightarrow> (d, logged @ [(branch, e)])
               | Inr d' \<Rightarrow> (d', logged))
         else (d, logged))"

definition analyze_repository_differences ::
  "git_repo \<Rightarrow> differences \<times> (string \<times> error) list" where
  "analyze_repository_differences repo =
     fold (analyze_branch repo) (all_branches repo) (empty_differences, [])"

text \<open>
  The categories of the divergence report, as the specification names them, and the
  category that the conditions of the loop body give to a branch. \<open>Unlisted\<close> stands for
  a name that is on neither remote, \<open>Broken\<close> for a comparison that raised. Tips that
  differ with both ranges empty are left out of every list by the code, like equal tips.
\<close>

datatype verdict =
    SourceOnly | MirrorOnly | IdenticalOrSynced | SourceAhead | MirrorAhead | Diverged
  | Unlisted | Broken error

definition verdict :: "git_repo \<Rightarrow> string \<Rightarrow> verdict" where
  "verdict repo b =
     (let on_github = (''origin/'' @ b \<in> set (refs repo));
          on_gitea = (''gitea/'' @ b \<in> set (refs repo))
      in if on_github \<and> \<not> on_gitea then SourceOnly
         else if on_gitea \<and> \<not> on_github then MirrorOnly
         else if \<not> on_github then Unlisted
         else (case commit repo (''origin/'' @ b) of
                 Inl e \<Rightarrow> Broken e
               | Inr h1 \<Rightarrow>
               (case commit repo (''gitea/'' @ b) of
                 Inl e \<Rightarrow> Broken e
               | Inr h2 \<Rightarrow>
                   if h1 = h2 then IdenticalOrSynced
                   else (case iter_commits repo (''gitea/'' @ b @ ''..'' @ ''origin/'' @ b) of
                           Inl e \<Rightarrow> Broken e
                         | Inr ahead \<Rightarrow>
                         (case iter_commits repo (''origin/'' @ b @ ''..'' @ ''gitea/'' @ b) of
                           Inl e \<Rightarrow> Broken e
                         | Inr behind \<Rightarrow>
                             if ahead \<noteq> [] \<and> behind \<noteq> [] then Diverged
                             else if ahead \<noteq> [] then SourceAhead
                             else if behind \<noteq> [] then MirrorAhead
                             else IdenticalOrSynced)))))"

definition record_verdict ::
  "string \<Rightarrow> verdict \<Rightarrow> differences \<times> (string \<times> error) list
     \<Rightarrow> differences \<times> (string \<times> error) list" where
  "record_verdict b v acc =
     (case v of
        SourceOnly \<Rightarrow> ((fst acc)\<lparr>new_branches_github := new_branches_github (fst acc) @ [b]\<rparr>, snd acc)
      | MirrorOnly \<Rightarrow> ((fst acc)\<lparr>new_branches_gitea := new_branches_gitea (fst acc) @ [b]\<rparr>, snd acc)
      | SourceAhead \<Rightarrow> ((fst acc)\<lparr>github_ahead := github_ahead (fst acc) @ [b]\<rparr>, snd acc)
      | MirrorAhead \<Rightarrow> ((fst acc)\<lparr>gitea_ahead := gitea_ahead (fst acc) @ [b]\<rparr>, snd acc)
      | Diverged \<Rightarrow> ((fst acc)\<lparr>diverged_branches := diverged_branches (fst acc) @ [b],
                                has_conflicts := True\<rparr>, snd acc)
      | Broken e \<Rightarrow> (fst acc, snd acc @ [(b, e)])
      | _ \<Rightarrow> acc)"

section \<open>Configuration and the outside world\<close>

text \<open>
  The settings that the engine reads. \<open>conflict_resolution\<close> is declared as one of three
  literals, which the settings class validates when it is loaded. The two repository
  filters are the parsed lists of the properties \<^verbatim>\<open>included_repositories\<close> and
  \<^verbatim>\<open>excluded_repositories\<close>.
\<close>

datatype resolution = GithubWins | GiteaWins | Manual

record settings =
  github_token :: string
  github_user :: string
  gitea_base_url :: string
  gitea_user :: string
  conflict_resolution :: resolution
  sync_tags :: bool
  max_concurrent_syncs :: int
  included_repositories :: "string list option"
  excluded_repositories :: "string list option"

text \<open>
  What a platform does with a push: it takes it, it rejects it (for instance an update
  that is not a fast-forward, without force), or the command fails altogether.
\<close>

datatype push_outcome = Accepted | Rejected | Failed

record repo_info =
  clone_url :: string

text \<open>
  Everything outside the engine that one call depends on: the clock, the answers of the
  two REST clients, what cloning and fetching deliver, and what becomes of each push.
\<close>

record env =
  settings :: settings
  utcnow :: timestamp
  github_list_repositories :: "error + string list"
  gitea_list_repositories :: "error + string list"
  github_get_repository :: "string \<Rightarrow> error + repo_info option"
  gitea_get_repository :: "string \<Rightarrow> error + repo_info option"
  github_create_repository :: "string \<Rightarrow> error + unit"
  gitea_create_repository :: "string \<Rightarrow> error + unit"
  clone_from :: "string \<Rightarrow> error + git_repo"
  fetch_remote :: "git_repo \<Rightarrow> string \<Rightarrow> string \<Rightarrow> error + git_repo"
  push_result :: "push \<Rightarrow> push_outcome"

section \<open>Resolution: the pushes of a sync\<close>

text \<open>
  \<^verbatim>\<open>repo.git.push(...)\<close> runs the git command and raises \<^verbatim>\<open>GitCommandError\<close> unless git
  exits with success. A sequence of such calls stops at the first one that raises; the
  pushes before it have happened.
\<close>

definition git_push :: "env \<Rightarrow> push \<Rightarrow> state \<Rightarrow> state \<times> (error + unit)" where
  "git_push env p st =
     (if push_result env p = Accepted then (st\<lparr>pushed := pushed st @ [p]\<rparr>, Inr ())
      else (st, Inl GitCommandError))"

fun git_push_all :: "env \<Rightarrow> push list \<Rightarrow> state \<Rightarrow> state \<times> (error + unit)" where
  "git_push_all env [] st = (st, Inr ())"
| "git_push_all env (p # ps) st =
     (case git_push env p st of
        (st', Inl e) \<Rightarrow> (st', Inl e)
      | (st', Inr _) \<Rightarrow> git_push_all env ps st')"

text \<open>
  \<^verbatim>\<open>_perform_simple_sync\<close> runs four loops and one optional block, each step a push
  followed by the note of an action. These are the pushes in the order of the code, and
  the notes that are returned when all of them went through.
\<close>

definition simple_sync_pushes :: "settings \<Rightarrow> differences \<Rightarrow> push list" where
  "simple_sync_pushes s d =
     map (\<lambda>branch. Push ''gitea'' (''origin/'' @ branch) branch False) (new_branches_github d) @
     map (\<lambda>branch. Push ''origin'' (''gitea/'' @ branch) branch False) (new_branches_gitea d) @
     map (\<lambda>branch. Push ''gitea'' (''origin/'' @ branch) branch False) (github_ahead d) @
     map (\<lambda>branch. Push ''origin'' (''gitea/'' @ branch) branch False) (gitea_ahead d) @
     (if sync_tags s
      then [PushTags ''gitea'', Push ''origin'' ''gitea/*'' ''refs/tags/*'' False]
      else [])"

definition simple_sync_actions :: "settings \<Rightarrow> differences \<Rightarrow> string list" where
  "simple_sync_actions s d =
     map (\<lambda>branch. ''pushed_to_gitea: '' @ branch) (new_branches_github d) @
     map (\<lambda>branch. ''pushed_to_github: '' @ branch) (new_branches_gitea d) @
     map (\<lambda>branch. ''synced_to_gitea: '' @ branch) (github_ahead d) @
     map (\<lambda>branch. ''synced_to_github: '' @ branch) (gitea_ahead d) @
     (if sync_tags s then [''synced_tags''] else [])"

definition perform_simple_sync :: "env \<Rightarrow> differences \<Rightarrow> state \<Rightarrow> state \<times> (error + sync_result)" where
  "perform_simple_sync env d st =
     (case git_push_all env (simple_sync_pushes (settings env) d) st of
        (st', Inl e) \<Rightarrow> (st', Inl e)
      | (st', Inr _) \<Rightarrow> (st', Inr (Synced (simple_sync_actions (settings env) d))))"

text \<open>
  \<^verbatim>\<open>_handle_sync_conflicts\<close>: under the policy \<^verbatim>\<open>manual\<close> it raises at once, naming the
  diverged branches; otherwise it force-pushes the winning side of every diverged branch.
\<close>

definition conflict_push :: "resolution \<Rightarrow> string \<Rightarrow> push list" where
  "conflict_push policy branch =
     (if policy = GithubWins then [Push ''gitea'' (''origin/'' @ branch) branch True]
      else if policy = GiteaWins then [Push ''origin'' (''gitea/'' @ branch) branch True]
      else [])"

definition conflict_action :: "resolution \<Rightarrow> string \<Rightarrow> string list" where
  "conflict_action policy branch =
     (if policy = GithubWins then [''github_wins: '' @ branch]
      else if policy = GiteaWins then [''gitea_wins: '' @ branch]
      else [])"

definition handle_sync_conflicts :: "env \<Rightarrow> differences \<Rightarrow> state \<Rightarrow> state \<times> (error + sync_result)" where
  "handle_sync_conflicts env d st =
     (if conflict_resolution (settings env) = Manual
      then (st, Inl (SyncConflictError (diverged_branches d)))
      else (case git_push_all env
                   (concat (map (conflict_push (conflict_resolution (settings env)))
                      (diverged_branches d))) st of
              (st', Inl e) \<Rightarrow> (st', Inl e)
            | (st', Inr _) \<Rightarrow>
                (st', Inr (ConflictResolved
                   (concat (map (conflict_action (conflict_resolution (settings env)))
                      (diverged_branches d)))))))"

text \<open>
  The last statement of \<^verbatim>\<open>_sync_existing_repositories\<close> chooses between the two on the
  flag of the report.
\<close>

definition resolve :: "env \<Rightarrow> differences \<Rightarrow> state \<Rightarrow> state \<times> (error + sync_result)" where
  "resolve env d st =
     (if \<not> has_conflicts d then perform_simple_sync env d st
      else handle_sync_conflicts env d st)"

text \<open>The pushes that \<open>resolve\<close> sets out to make, in order.\<close>

definition resolution_pushes :: "settings \<Rightarrow> differences \<Rightarrow> push list" where
  "resolution_pushes s d =
     (if \<not> has_conflicts d then simple_sync_pushes s d
      else if conflict_resolution s = Manual then []
      else concat (map (conflict_push (conflict_resolution s)) (diverged_branches d)))"

text \<open>
  A push concerns the branch \<open>b\<close> when its refspec is \<^verbatim>\<open>origin/b:b\<close> or \<^verbatim>\<open>gitea/b:b\<close>: it
  sets \<open>b\<close> on the receiving platform to the tip that the other platform has. It is
  forced when it carries \<^verbatim>\<open>--force\<close>.
\<close>

fun updates_branch :: "string \<Rightarrow> push \<Rightarrow> bool" where
  "updates_branch b (Push remote src dst force) =
     (dst = b \<and> (src = ''origin/'' @ b \<or> src = ''gitea/'' @ b))"
| "updates_branch b (PushTags remote) = False"


section \<open>The orchestrator\<close>

definition github_clone_url :: "settings \<Rightarrow> string \<Rightarrow> string" where
  "github_clone_url s repo_name =
     ''https://'' @ github_token s @ ''@github.com/'' @ github_user s @ ''/'' @ repo_name @ ''.git''"

definition gitea_clone_url :: "settings \<Rightarrow> string \<Rightarrow> string" where
  "gitea_clone_url s repo_name =
     gitea_base_url s @ ''/'' @ gitea_user s @ ''/'' @ repo_name @ ''.git''"

text \<open>
  \<^verbatim>\<open>remote.push(refspec=...)\<close> of GitPython, unlike \<^verbatim>\<open>repo.git.push\<close>, reports rejected
  references in its return value and raises only when the command fails altogether. The
  engine drops the return value.
\<close>

definition remote_push :: "env \<Rightarrow> push \<Rightarrow> state \<Rightarrow> state \<times> (error + unit)" where
  "remote_push env p st =
     (case push_result env p of
        Accepted \<Rightarrow> (st\<lparr>pushed := pushed st @ [p]\<rparr>, Inr ())
      | Rejected \<Rightarrow> (st, Inr ())
      | Failed \<Rightarrow> (st, Inl GitCommandError))"

definition create_gitea_from_github :: "env \<Rightarrow> string \<Rightarrow> state \<Rightarrow> state \<times> (error + unit)" where
  "create_gitea_from_github env repo_name st =
     (case clone_from env (github_clone_url (settings env) repo_name) of
        Inl e \<Rightarrow> (st, Inl e)
      | Inr repo \<Rightarrow>
      (case gitea_create_repository env repo_name of
        Inl e \<Rightarrow> (st, Inl e)
      | Inr _ \<Rightarrow>
      (case remote_push env (Push ''gitea'' ''refs/heads/*'' ''refs/heads/*'' False)
              (st\<lparr>created := created st @ [(''gitea'', repo_name)]\<rparr>) of
        (st1, Inl e) \<Rightarrow> (st1, Inl e)
      | (st1, Inr _) \<Rightarrow>
          remote_push env (Push ''gitea'' ''refs/tags/*'' ''refs/tags/*'' False) st1)))"

definition create_github_from_gitea :: "env \<Rightarrow> string \<Rightarrow> state \<Rightarrow> state \<times> (error + unit)" where
  "create_github_from_gitea env repo_name st =
     (case clone_from env (gitea_clone_url (settings env) repo_name) of
        Inl e \<Rightarrow> (st, Inl e)
      | Inr repo \<Rightarrow>
      (case github_create_repository env repo_name of
        Inl e \<Rightarrow> (st, Inl e)
      | Inr _ \<Rightarrow>
      (case remote_push env (Push ''github'' ''refs/heads/*'' ''refs/heads/*'' False)
              (st\<lparr>created := created st @ [(''github'', repo_name)]\<rparr>) of
        (st1, Inl e) \<Rightarrow> (st1, Inl e)
      | (st1, Inr _) \<Rightarrow>
          remote_push env (Push ''github'' ''refs/tags/*'' ''refs/tags/*'' False) st1)))"

text \<open>
  \<^verbatim>\<open>_sync_existing_repositories\<close>: clone the GitHub side, add the Gitea side as a second
  remote and fetch it, analyze, and resolve. The clone lives in a temporary directory of
  its own.
\<close>

definition sync_existing_repositories :: "env \<Rightarrow> string \<Rightarrow> state \<Rightarrow> state \<times> (error + sync_result)" where
  "sync_existing_repositories env repo_name st =
     (case clone_from env (github_clone_url (settings env) repo_name) of
        Inl e \<Rightarrow> (st, Inl e)
      | Inr repo0 \<Rightarrow>
      (case fetch_remote env repo0 ''gitea'' (gitea_clone_url (settings env) repo_name) of
        Inl e \<Rightarrow> (st, Inl e)
      | Inr repo \<Rightarrow>
          resolve env (fst (analyze_repository_differences repo))
            (st\<lparr>warnings := warnings st @ snd (analyze_repository_differences repo)\<rparr>)))"

definition perform_bidirectional_sync ::
  "env \<Rightarrow> string \<Rightarrow> repo_info option \<Rightarrow> repo_info option \<Rightarrow> state
     \<Rightarrow> state \<times> (error + sync_result)" where
  "perform_bidirectional_sync env repo_name github_repo gitea_repo st =
     (let github_exists = (github_repo \<noteq> None); gitea_exists = (gitea_repo \<noteq> None)
      in if \<not> github_exists \<and> \<not> gitea_exists then (st, Inl ValueError)
         else if github_exists \<and> \<not> gitea_exists
         then (case create_gitea_from_github env repo_name st of
                 (st', Inl e) \<Rightarrow> (st', Inl e)
               | (st', Inr _) \<Rightarrow> (st', Inr (Created ''created_gitea'' ''github'')))
         else if gitea_exists \<and> \<not> github_exists
         then (case create_github_from_gitea env repo_name st of
                 (st', Inl e) \<Rightarrow> (st', Inl e)
               | (st', Inr _) \<Rightarrow> (st', Inr (Created ''created_github'' ''gitea'')))
         else sync_existing_repositories env repo_name st)"

text \<open>\<^verbatim>\<open>_ensure_repository_record\<close> inserts a row with status \<^verbatim>\<open>"pending"\<close> when the name
  has none; the columns it does not mention take their defaults.\<close>

definition ensure_repository_record ::
  "env \<Rightarrow> string \<Rightarrow> repo_info option \<Rightarrow> repo_info option \<Rightarrow> state \<Rightarrow> state" where
  "ensure_repository_record env repo_name github_repo gitea_repo st =
     (case first_by_name repo_name (repositories st) of
        Some existing \<Rightarrow> st
      | None \<Rightarrow>
          st\<lparr>repositories := repositories st @
               [\<lparr>name = repo_name,
                 github_url = map_option clone_url github_repo,
                 gitea_url = (if gitea_repo \<noteq> None
                              then Some (gitea_clone_url (settings env) repo_name) else None),
                 sync_status = ''pending'',
                 last_sync = None,
                 conflict_count = 0,
                 created_at = utcnow env,
                 updated_at = utcnow env,
                 config = None\<rparr>]\<rparr>)"

text \<open>
  \<^verbatim>\<open>sync_repository\<close> in three parts. \<open>sync_begin\<close> is what runs before the \<^verbatim>\<open>try\<close>: the
  status update. \<open>sync_attempt\<close> is the body of the \<^verbatim>\<open>try\<close> up to the assignment of
  \<^verbatim>\<open>result\<close>: the two platform queries, the row, the sync proper. \<open>sync_conclude\<close> is the
  rest of the body together with the two handlers; both handlers raise again. The
  parameter \<^verbatim>\<open>source\<close> only goes to the logger.
\<close>

definition sync_begin :: "env \<Rightarrow> string \<Rightarrow> state \<Rightarrow> state" where
  "sync_begin env repo_name st = update_repo_status (utcnow env) repo_name ''syncing'' st"

definition sync_attempt :: "env \<Rightarrow> string \<Rightarrow> state \<Rightarrow> state \<times> (error + sync_result)" where
  "sync_attempt env repo_name st =
     (case github_get_repository env repo_name of
        Inl e \<Rightarrow> (st, Inl e)
      | Inr github_repo \<Rightarrow>
      (case gitea_get_repository env repo_name of
        Inl e \<Rightarrow> (st, Inl e)
      | Inr gitea_repo \<Rightarrow>
          perform_bidirectional_sync env repo_name github_repo gitea_repo
            (ensure_repository_record env repo_name github_repo gitea_repo st)))"

fun sync_conclude ::
  "env \<Rightarrow> string \<Rightarrow> state \<times> (error + sync_result) \<Rightarrow> state \<times> (error + sync_result)" where
  "sync_conclude env repo_name (st, Inr result) =
     (log_sync_result (utcnow env) repo_name ''success'' (ResultDetails result)
        (update_repo_status (utcnow env) repo_name ''synced'' st), Inr result)"
| "sync_conclude env repo_name (st, Inl (SyncConflictError bs)) =
     (log_sync_result (utcnow env) repo_name ''conflict'' (ErrorDetails (SyncConflictError bs))
        (update_repo_status (utcnow env) repo_name ''conflict'' st), Inl (SyncConflictError bs))"
| "sync_conclude env repo_name (st, Inl e) =
     (log_sync_result (utcnow env) repo_name ''failed'' (ErrorDetails e)
        (update_repo_status (utcnow env) repo_name ''failed'' st), Inl e)"

definition sync_repository :: "env \<Rightarrow> string \<Rightarrow> state \<Rightarrow> state \<times> (error + sync_result)" where
  "sync_repository env repo_name st =
     sync_conclude env repo_name (sync_attempt env repo_name (sync_begin env repo_name st))"

section \<open>The whole fleet\<close>

text \<open>
  \<^verbatim>\<open>discover_repositories\<close>: the names of both listings that pass the two filters, put
  into a Python set and returned as a list. A failing listing raises.
\<close>

definition keep_repository :: "settings \<Rightarrow> string \<Rightarrow> bool" where
  "keep_repository s n =
     (\<not> (case included_repositories s of None \<Rightarrow> False | Some inc \<Rightarrow> inc \<noteq> [] \<and> n \<notin> set inc) \<and>
      n \<notin> set (case excluded_repositories s of None \<Rightarrow> [] | Some exc \<Rightarrow> exc))"

definition discover_repositories :: "env \<Rightarrow> error + string list" where
  "discover_repositories env =
     (case github_list_repositories env of
        Inl e \<Rightarrow> Inl e
      | Inr github_repos \<Rightarrow>
      (case gitea_list_repositories env of
        Inl e \<Rightarrow> Inl e
      | Inr gitea_repos \<Rightarrow>
          Inr (remdups (filter (keep_repository (settings env)) github_repos @
                        filter (keep_repository (settings env)) gitea_repos))))"

text \<open>
  \<^verbatim>\<open>asyncio.gather(*tasks, return_exceptions=True)\<close> runs one coroutine per name and collects,
  for each, its result or the exception it raised. Here the coroutines run one after the
  other in the order of the list; syncs of different names write different rows.
\<close>

fun gather_syncs :: "env \<Rightarrow> string list \<Rightarrow> state \<Rightarrow> state \<times> (error + sync_result) list" where
  "gather_syncs env [] st = (st, [])"
| "gather_syncs env (n # ns) st =
     (case sync_repository env n st of
        (st1, r) \<Rightarrow> (case gather_syncs env ns st1 of (st2, rs) \<Rightarrow> (st2, r # rs)))"

text \<open>
  How a call ends: it returns a value, it raises, or it never returns. \<^verbatim>\<open>sync_repositories\<close>
  has no \<^verbatim>\<open>return\<close> statement, so what it returns is Python's \<^verbatim>\<open>None\<close>, written \<open>None\<close>;
  a list of outcomes would be \<open>Some\<close> of it. The list that \<^verbatim>\<open>gather\<close> delivers is bound to
  no name. \<^verbatim>\<open>asyncio.Semaphore\<close> raises \<^verbatim>\<open>ValueError\<close> for a negative value, and with the
  value zero no coroutine ever acquires it. Whatever is raised inside the \<^verbatim>\<open>try\<close> clears
  the health flag and is raised again.
\<close>

datatype 'a outcome = Returns 'a | Raises error | Hangs

definition sync_repositories ::
  "env \<Rightarrow> string option \<Rightarrow> state \<Rightarrow> state \<times> (error + sync_result) list option outcome" where
  "sync_repositories env repo_name st =
     (let n = (case repo_name of None \<Rightarrow> [] | Some n \<Rightarrow> n)
      in if n \<noteq> []
         then (case sync_repository env n st of
                 (st', Inl e) \<Rightarrow> (st'\<lparr>healthy := False\<rparr>, Raises e)
               | (st', Inr _) \<Rightarrow> (st', Returns None))
         else (case discover_repositories env of
                 Inl e \<Rightarrow> (st\<lparr>healthy := False\<rparr>, Raises e)
               | Inr repos \<Rightarrow>
                   if max_concurrent_syncs (settings env) < 0
                   then (st\<lparr>healthy := False\<rparr>, Raises ValueError)
                   else if max_concurrent_syncs (settings env) = 0 \<and> repos \<noteq> []
                   then (st, Hangs)
                   else (fst (gather_syncs env repos st), Returns None)))"

section \<open>Syncs in flight\<close>

text \<open>
  The engine runs on one asyncio event loop: a coroutine runs until it awaits something
  that is not ready, and only then another one runs. \<^verbatim>\<open>_update_repo_status\<close> awaits
  nothing of that kind, so a call of \<^verbatim>\<open>sync_repository\<close> runs \<open>sync_begin\<close> in one piece
  and is first suspended in the query to GitHub. From then until it ends it is in flight.
  The coroutines of a fleet pass stand before \<^verbatim>\<open>async with semaphore\<close> first.

  The events: \<open>Trigger n\<close>, a direct call \<^verbatim>\<open>sync_repository(n)\<close> (a webhook, the scheduler's
  immediate sync, a manual sync of one repository) reaches its first suspension;
  \<open>Complete n\<close>, such a call ends; \<open>Admit n\<close>, the coroutine of a fleet pass for \<open>n\<close> takes a
  permit of the semaphore and reaches its first suspension; \<open>Release n\<close>, such a coroutine ends
  and gives the permit back. The rest of a sync is taken as one step.
\<close>

datatype event = Trigger string | Complete string | Admit string | Release string

record engine =
  store :: state
  permits :: nat
  waiting :: "string list"
  gated :: "string list"
  direct :: "string list"


definition sync_rest :: "env \<Rightarrow> string \<Rightarrow> state \<Rightarrow> state" where
  "sync_rest env n st = fst (sync_conclude env n (sync_attempt env n st))"

fun step :: "env \<Rightarrow> event \<Rightarrow> engine \<Rightarrow> engine option" where
  "step env (Trigger n) e =
     Some (e\<lparr>store := sync_begin env n (store e), direct := direct e @ [n]\<rparr>)"
| "step env (Complete n) e =
     (if n \<in> set (direct e)
      then Some (e\<lparr>store := sync_rest env n (store e), direct := remove1 n (direct e)\<rparr>)
      else None)"
| "step env (Admit n) e =
     (if n \<in> set (waiting e) \<and> 0 < permits e
      then Some (e\<lparr>store := sync_begin env n (store e), permits := permits e - 1,
                   waiting := remove1 n (waiting e), gated := gated e @ [n]\<rparr>)
      else None)"
| "step env (Release n) e =
     (if n \<in> set (gated e)
      then Some (e\<lparr>store := sync_rest env n (store e), permits := permits e + 1,
                   gated := remove1 n (gated e)\<rparr>)
      else None)"

fun run :: "env \<Rightarrow> event list \<Rightarrow> engine \<Rightarrow> engine option" where
  "run env [] e = Some e"
| "run env (ev # evs) e =
     (case step env ev e of None \<Rightarrow> None | Some e' \<Rightarrow> run env evs e')"


text \<open>A fleet pass over the names \<open>repos\<close> with a semaphore of \<open>g\<close> permits, nothing else
  going on.\<close>

definition fleet_pass :: "nat \<Rightarrow> string list \<Rightarrow> state \<Rightarrow> engine" where
  "fleet_pass g repos st = \<lparr>store = st, permits = g, waiting = repos, gated = [], direct = []\<rparr>"


section \<open>Scenarios\<close>

text \<open>Concrete repositories, settings and worlds, on which the statements below are
  evaluated.\<close>

definition demo_settings :: "resolution \<Rightarrow> settings" where
  "demo_settings policy =
     \<lparr>github_token = ''tok'', github_user = ''dev'', gitea_base_url = ''http://gitea:3000'',
      gitea_user = ''dev'', conflict_resolution = policy, sync_tags = True,
      max_concurrent_syncs = 5, included_repositories = None, excluded_repositories = None\<rparr>"

text \<open>A clone given by the names of its references, the tips they resolve to (any other
  revision is a bad name) and the non-empty ranges.\<close>

definition demo_repo ::
  "string list \<Rightarrow> (string \<times> string) list \<Rightarrow> (string \<times> string list) list \<Rightarrow> git_repo" where
  "demo_repo names tips ranges =
     \<lparr>refs = names,
      commit = (\<lambda>rev. case map_of tips rev of None \<Rightarrow> Inl GitCommandError | Some h \<Rightarrow> Inr h),
      iter_commits = (\<lambda>range. case map_of ranges range of None \<Rightarrow> Inr [] | Some cs \<Rightarrow> Inr cs),
      github_tags = [], gitea_tags = []\<rparr>"

text \<open>A world in which both platforms know every repository, cloning and fetching
  deliver the given clone, and every push is accepted.\<close>

definition demo_env :: "resolution \<Rightarrow> git_repo \<Rightarrow> env" where
  "demo_env policy repo =
     \<lparr>settings = demo_settings policy,
      utcnow = 100,
      github_list_repositories = Inr [],
      gitea_list_repositories = Inr [],
      github_get_repository = (\<lambda>n. Inr (Some \<lparr>clone_url = ''https://github.com/dev/'' @ n @ ''.git''\<rparr>)),
      gitea_get_repository = (\<lambda>n. Inr (Some \<lparr>clone_url = ''http://gitea:3000/dev/'' @ n @ ''.git''\<rparr>)),
      github_create_repository = (\<lambda>n. Inr ()),
      gitea_create_repository = (\<lambda>n. Inr ()),
      clone_from = (\<lambda>url. Inr (repo\<lparr>refs := filter (\<lambda>n. \<not> startswith n ''gitea/'') (refs repo)\<rparr>)),
      fetch_remote = (\<lambda>r n url. Inr repo),
      push_result = (\<lambda>p. Accepted)\<rparr>"

definition empty_state :: state where
  "empty_state =
     \<lparr>repositories = [], logs = [], conflicts = [], pushed = [], created = [],
      warnings = [], healthy = True\<rparr>"



text \<open>Repository \<open>gamma\<close>: \<open>main\<close> at \<open>X\<close> on GitHub and at \<open>Z\<close> on Gitea, neither an
  ancestor of the other.\<close>

definition gamma_repo :: git_repo where
  "gamma_repo =
     demo_repo [''main'', ''origin/main'', ''gitea/main'']
       [(''main'', ''X''), (''origin/main'', ''X''), (''gitea/main'', ''Z'')]
       [(''gitea/main..origin/main'', [''X'']), (''origin/main..gitea/main'', [''Z''])]"

text \<open>Repository \<open>beta\<close>: \<open>main\<close> at \<open>X\<close> on GitHub and at its descendant \<open>Y\<close> on Gitea;
  \<open>stable\<close> at \<open>S\<close> on both.\<close>

definition beta_repo :: git_repo where
  "beta_repo =
     demo_repo [''main'', ''origin/main'', ''origin/stable'', ''gitea/main'', ''gitea/stable'']
       [(''main'', ''X''), (''origin/main'', ''X''), (''gitea/main'', ''Y''),
        (''origin/stable'', ''S''), (''gitea/stable'', ''S'')]
       [(''origin/main..gitea/main'', [''Y''])]"


text \<open>Repository \<open>epsilon\<close>: \<open>main\<close> one commit ahead on GitHub, and a branch \<open>wip\<close> whose
  reference on the Gitea side cannot be resolved.\<close>

definition epsilon_repo :: git_repo where
  "epsilon_repo =
     demo_repo [''main'', ''origin/main'', ''origin/wip'', ''gitea/main'', ''gitea/wip'']
       [(''main'', ''B''), (''origin/main'', ''B''), (''gitea/main'', ''A''), (''origin/wip'', ''W'')]
       [(''gitea/main..origin/main'', [''B''])]"

text \<open>Repository \<open>zeta\<close>: \<open>main\<close> at \<open>X\<close> on both sides, and a branch named
  \<^verbatim>\<open>gitea/origin/z\<close> that has diverged: \<open>P\<close> on GitHub, \<open>Q\<close> on Gitea.\<close>

definition zeta_repo :: git_repo where
  "zeta_repo =
     demo_repo [''main'', ''origin/main'', ''origin/gitea/origin/z'',
                ''gitea/main'', ''gitea/gitea/origin/z'']
       [(''main'', ''X''), (''origin/main'', ''X''), (''gitea/main'', ''X''),
        (''origin/gitea/origin/z'', ''P''), (''gitea/gitea/origin/z'', ''Q'')]
       [(''gitea/gitea/origin/z..origin/gitea/origin/z'', [''P'']),
        (''origin/gitea/origin/z..gitea/gitea/origin/z'', [''Q''])]"



text \<open>A fleet of two repositories: GitHub fails on every query about \<open>alpha\<close>, and \<open>beta\<close>
  is as above.\<close>

definition fleet_env :: env where
  "fleet_env =
     (demo_env Manual beta_repo)
       \<lparr>github_list_repositories := Inr [''alpha'', ''beta''],
        gitea_list_repositories := Inr [''beta''],
        github_get_repository :=
          (\<lambda>n. if n = ''alpha'' then Inl HTTPError
                else Inr (Some \<lparr>clone_url = ''https://github.com/dev/'' @ n @ ''.git''\<rparr>))\<rparr>"

section \<open>Properties of the status store\<close>

lemma first_by_name_name:
  "first_by_name n rows = Some r \<Longrightarrow> name r = n"
  unfolding first_by_name_def by (induction rows) (auto split: if_splits)

lemma first_by_name_replace_first:
  "first_by_name n rows = Some r \<Longrightarrow> name r' = n \<Longrightarrow>
   first_by_name n (replace_first n r' rows) = Some r'"
  unfolding first_by_name_def by (induction rows) (auto split: if_splits)


lemma length_replace_first [simp]:
  "length (replace_first n r' rows) = length rows"
  by (induction rows) auto

lemma name_set_status [simp]: "name (set_status now s r) = name r"
  by (simp add: set_status_def Let_def)

lemma commit_row_fields [simp]:
  "name (commit_row now old new) = name new"
  "github_url (commit_row now old new) = github_url new"
  "gitea_url (commit_row now old new) = gitea_url new"
  "sync_status (commit_row now old new) = sync_status new"
  "last_sync (commit_row now old new) = last_sync new"
  "conflict_count (commit_row now old new) = conflict_count new"
  "created_at (commit_row now old new) = created_at new"
  "config (commit_row now old new) = config new"
  by (cases "new = old"; simp add: commit_row_def)+

lemma set_status_fields [simp]:
  "github_url (set_status now s r) = github_url r"
  "gitea_url (set_status now s r) = gitea_url r"
  "sync_status (set_status now s r) = s"
  "last_sync (set_status now s r) = (if s = ''synced'' then Some now else last_sync r)"
  "conflict_count (set_status now s r)
     = (if s = ''conflict'' then conflict_count r + 1 else conflict_count r)"
  "created_at (set_status now s r) = created_at r"
  "config (set_status now s r) = config r"
  by (simp_all add: set_status_def Let_def)

lemma first_by_name_update_repo_status:
  "first_by_name n (repositories st) = Some r \<Longrightarrow>
   first_by_name n (repositories (update_repo_status now n s st))
     = Some (commit_row now r (set_status now s r))"
  by (simp add: update_repo_status_def first_by_name_replace_first first_by_name_name)


lemma update_repo_status_absent:
  "first_by_name n (repositories st) = None \<Longrightarrow> update_repo_status now n s st = st"
  by (simp add: update_repo_status_def)



section \<open>Properties of the analysis\<close>

lemma analyze_branch_verdict:
  "analyze_branch repo b acc = record_verdict b (verdict repo b) acc"
  by (cases acc)
     (auto simp: analyze_branch_def compare_branches_def verdict_def record_verdict_def Let_def
           split: sum.splits)

lemma fold_diverged:
  "set (diverged_branches (fst (fold (analyze_branch repo) bs acc)))
     = set (diverged_branches (fst acc)) \<union> {b \<in> set bs. verdict repo b = Diverged}"
  by (induction bs arbitrary: acc)
     (auto simp: analyze_branch_verdict record_verdict_def split: verdict.splits)

lemma fold_github_ahead:
  "set (github_ahead (fst (fold (analyze_branch repo) bs acc)))
     = set (github_ahead (fst acc)) \<union> {b \<in> set bs. verdict repo b = SourceAhead}"
  by (induction bs arbitrary: acc)
     (auto simp: analyze_branch_verdict record_verdict_def split: verdict.splits)

lemma fold_gitea_ahead:
  "set (gitea_ahead (fst (fold (analyze_branch repo) bs acc)))
     = set (gitea_ahead (fst acc)) \<union> {b \<in> set bs. verdict repo b = MirrorAhead}"
  by (induction bs arbitrary: acc)
     (auto simp: analyze_branch_verdict record_verdict_def split: verdict.splits)

lemma fold_new_branches_github:
  "set (new_branches_github (fst (fold (analyze_branch repo) bs acc)))
     = set (new_branches_github (fst acc)) \<union> {b \<in> set bs. verdict repo b = SourceOnly}"
  by (induction bs arbitrary: acc)
     (auto simp: analyze_branch_verdict record_verdict_def split: verdict.splits)

lemma fold_new_branches_gitea:
  "set (new_branches_gitea (fst (fold (analyze_branch repo) bs acc)))
     = set (new_branches_gitea (fst acc)) \<union> {b \<in> set bs. verdict repo b = MirrorOnly}"
  by (induction bs arbitrary: acc)
     (auto simp: analyze_branch_verdict record_verdict_def split: verdict.splits)

lemma fold_logged:
  "set (snd (fold (analyze_branch repo) bs acc))
     = set (snd acc) \<union> {(b, e). b \<in> set bs \<and> verdict repo b = Broken e}"
  by (induction bs arbitrary: acc)
     (auto simp: analyze_branch_verdict record_verdict_def split: verdict.splits)


lemma fold_has_conflicts:
  "has_conflicts (fst (fold (analyze_branch repo) bs acc))
     = (has_conflicts (fst acc) \<or> (\<exists>b \<in> set bs. verdict repo b = Diverged))"
  by (induction bs arbitrary: acc)
     (auto simp: analyze_branch_verdict record_verdict_def split: verdict.splits)

lemma fold_distinct:
  "distinct bs \<Longrightarrow>
   distinct (diverged_branches (fst acc)) \<and> set (diverged_branches (fst acc)) \<inter> set bs = {} \<Longrightarrow>
   distinct (diverged_branches (fst (fold (analyze_branch repo) bs acc)))"
  by (induction bs arbitrary: acc)
     (auto simp: analyze_branch_verdict record_verdict_def split: verdict.splits)

lemma diverged_branches_iff:
  "b \<in> set (diverged_branches (fst (analyze_repository_differences repo)))
     \<longleftrightarrow> b \<in> set (all_branches repo) \<and> verdict repo b = Diverged"
  by (simp add: analyze_repository_differences_def fold_diverged empty_differences_def)

lemma github_ahead_iff:
  "b \<in> set (github_ahead (fst (analyze_repository_differences repo)))
     \<longleftrightarrow> b \<in> set (all_branches repo) \<and> verdict repo b = SourceAhead"
  by (simp add: analyze_repository_differences_def fold_github_ahead empty_differences_def)

lemma gitea_ahead_iff:
  "b \<in> set (gitea_ahead (fst (analyze_repository_differences repo)))
     \<longleftrightarrow> b \<in> set (all_branches repo) \<and> verdict repo b = MirrorAhead"
  by (simp add: analyze_repository_differences_def fold_gitea_ahead empty_differences_def)

lemma new_branches_github_iff:
  "b \<in> set (new_branches_github (fst (analyze_repository_differences repo)))
     \<longleftrightarrow> b \<in> set (all_branches repo) \<and> verdict repo b = SourceOnly"
  by (simp add: analyze_repository_differences_def fold_new_branches_github empty_differences_def)

lemma new_branches_gitea_iff:
  "b \<in> set (new_branches_gitea (fst (analyze_repository_differences repo)))
     \<longleftrightarrow> b \<in> set (all_branches repo) \<and> verdict repo b = MirrorOnly"
  by (simp add: analyze_repository_differences_def fold_new_branches_gitea empty_differences_def)

lemma logged_iff:
  "(b, e) \<in> set (snd (analyze_repository_differences repo))
     \<longleftrightarrow> b \<in> set (all_branches repo) \<and> verdict repo b = Broken e"
  by (simp add: analyze_repository_differences_def fold_logged)

lemma has_conflicts_iff:
  "has_conflicts (fst (analyze_repository_differences repo))
     \<longleftrightarrow> diverged_branches (fst (analyze_repository_differences repo)) \<noteq> []"
proof -
  have "diverged_branches (fst (analyze_repository_differences repo)) \<noteq> []
          \<longleftrightarrow> set (diverged_branches (fst (analyze_repository_differences repo))) \<noteq> {}"
    by simp
  also have "\<dots> \<longleftrightarrow> (\<exists>b \<in> set (all_branches repo). verdict repo b = Diverged)"
    by (auto simp: analyze_repository_differences_def fold_diverged empty_differences_def)
  finally show ?thesis
    by (simp add: analyze_repository_differences_def fold_has_conflicts empty_differences_def)
qed

lemma distinct_diverged_branches:
  "distinct (diverged_branches (fst (analyze_repository_differences repo)))"
  unfolding analyze_repository_differences_def
  by (rule fold_distinct) (simp_all add: all_branches_def empty_differences_def)

section \<open>Properties of resolution\<close>

lemma git_push_all_pushed:
  "pushed (fst (git_push_all env ps st))
     = pushed st @ takeWhile (\<lambda>p. push_result env p = Accepted) ps"
  by (induction ps arbitrary: st) (auto simp: git_push_def)

lemma git_push_all_frame:
  "repositories (fst (git_push_all env ps st)) = repositories st \<and>
   logs (fst (git_push_all env ps st)) = logs st \<and>
   conflicts (fst (git_push_all env ps st)) = conflicts st \<and>
   created (fst (git_push_all env ps st)) = created st \<and>
   warnings (fst (git_push_all env ps st)) = warnings st \<and>
   healthy (fst (git_push_all env ps st)) = healthy st"
  by (induction ps arbitrary: st) (auto simp: git_push_def)

lemma git_push_all_ok:
  "snd (git_push_all env ps st) = Inr () \<longleftrightarrow> (\<forall>p \<in> set ps. push_result env p = Accepted)"
  by (induction ps arbitrary: st) (auto simp: git_push_def)

lemma resolve_pushed:
  "pushed (fst (resolve env d st))
     = pushed st @ takeWhile (\<lambda>p. push_result env p = Accepted)
                     (resolution_pushes (settings env) d)"
proof -
  have "pushed (fst (case git_push_all env ps st of
                       (st', Inl e) \<Rightarrow> (st', Inl e)
                     | (st', Inr u) \<Rightarrow> (st', Inr (f u))))
          = pushed (fst (git_push_all env ps st))" for ps and f :: "unit \<Rightarrow> sync_result"
    by (cases "git_push_all env ps st") (auto split: sum.splits)
  then show ?thesis
    by (simp add: resolve_def resolution_pushes_def perform_simple_sync_def
          handle_sync_conflicts_def git_push_all_pushed)
qed

lemma resolution_pushes_updates:
  "p \<in> set (resolution_pushes s d) \<Longrightarrow> updates_branch b p \<Longrightarrow>
   b \<in> set (new_branches_github d) \<union> set (new_branches_gitea d) \<union> set (github_ahead d)
       \<union> set (gitea_ahead d) \<union> set (diverged_branches d)"
  by (auto simp: resolution_pushes_def simple_sync_pushes_def conflict_push_def
           split: if_splits)

section \<open>Branches: what is listed and what is pushed\<close>

lemma verdict_identical:
  assumes "''origin/'' @ b \<in> set (refs repo)" and "''gitea/'' @ b \<in> set (refs repo)"
    and "commit repo (''origin/'' @ b) = Inr h" and "commit repo (''gitea/'' @ b) = Inr h"
  shows "verdict repo b = IdenticalOrSynced"
  using assms by (simp add: verdict_def)

text \<open>
  C7. A branch that both remotes have, with the same commit identifier at its tip, is
  identical-or-synced: the report lists it under no heading (not ahead on either side, not
  new on either side, not diverged), no push that resolution sets out to make concerns
  it, whatever the settings, and a run of resolution adds no push concerning it to those
  the platforms have received.
\<close>

theorem identical_branch_no_action:
  assumes "''origin/'' @ b \<in> set (refs repo)" and "''gitea/'' @ b \<in> set (refs repo)"
    and "commit repo (''origin/'' @ b) = Inr h" and "commit repo (''gitea/'' @ b) = Inr h"
  shows "verdict repo b = IdenticalOrSynced \<and>
         b \<notin> set (github_ahead (fst (analyze_repository_differences repo))) \<and>
         b \<notin> set (gitea_ahead (fst (analyze_repository_differences repo))) \<and>
         b \<notin> set (new_branches_github (fst (analyze_repository_differences repo))) \<and>
         b \<notin> set (new_branches_gitea (fst (analyze_repository_differences repo))) \<and>
         b \<notin> set (diverged_branches (fst (analyze_repository_differences repo))) \<and>
         (\<forall>s. \<forall>p \<in> set (resolution_pushes s (fst (analyze_repository_differences repo))).
            \<not> updates_branch b p) \<and>
         (\<forall>env st. \<forall>p \<in> set (pushed (fst (resolve env (fst (analyze_repository_differences repo)) st))).
            updates_branch b p \<longrightarrow> p \<in> set (pushed st))"
proof -
  let ?d = "fst (analyze_repository_differences repo)"
  have v: "verdict repo b = IdenticalOrSynced"
    using assms by (rule verdict_identical)
  have lists: "b \<notin> set (github_ahead ?d)" "b \<notin> set (gitea_ahead ?d)"
    "b \<notin> set (new_branches_github ?d)" "b \<notin> set (new_branches_gitea ?d)"
    "b \<notin> set (diverged_branches ?d)"
    by (simp_all add: github_ahead_iff gitea_ahead_iff new_branches_github_iff
          new_branches_gitea_iff diverged_branches_iff v)
  have plan: "\<not> updates_branch b p" if "p \<in> set (resolution_pushes s ?d)" for s p
    using resolution_pushes_updates [OF that, of b] lists by auto
  have run: "p \<in> set (pushed st)"
    if "p \<in> set (pushed (fst (resolve env ?d st)))" and "updates_branch b p" for env st p
  proof -
    from that(1) have "p \<in> set (pushed st) \<or> p \<in> set (resolution_pushes (settings env) ?d)"
      by (auto simp: resolve_pushed dest: set_takeWhileD)
    with plan that(2) show ?thesis by blast
  qed
  from v lists plan run show ?thesis by blast
qed

theorem identical_branch_no_action_witness:
  "verdict beta_repo ''stable'' = IdenticalOrSynced \<and>
   ''stable'' \<notin> set (diverged_branches (fst (analyze_repository_differences beta_repo))) \<and>
   \<not> updates_branch ''stable'' (Push ''origin'' ''gitea/main'' ''main'' False) \<and>
   Push ''origin'' ''gitea/main'' ''main'' False
     \<in> set (resolution_pushes (demo_settings Manual) (fst (analyze_repository_differences beta_repo)))"
proof -
  have refs: "''origin/'' @ ''stable'' \<in> set (refs beta_repo)" "''gitea/'' @ ''stable'' \<in> set (refs beta_repo)"
    by (simp_all add: beta_repo_def demo_repo_def)
  have tips: "commit beta_repo (''origin/'' @ ''stable'') = Inr ''S''"
    "commit beta_repo (''gitea/'' @ ''stable'') = Inr ''S''"
    by (simp_all add: beta_repo_def demo_repo_def)
  have plan: "Push ''origin'' ''gitea/main'' ''main'' False
     \<in> set (resolution_pushes (demo_settings Manual) (fst (analyze_repository_differences beta_repo)))"
    by code_simp
  show ?thesis
    using identical_branch_no_action [OF refs tips] plan by auto
qed

lemma compare_branches_error:
  "compare_branches repo b d = Inl e \<Longrightarrow> compare_branches repo b d' = Inl e"
  by (auto simp: compare_branches_def Let_def split: sum.splits if_splits)

lemma verdict_broken:
  assumes "''origin/'' @ b \<in> set (refs repo)" and "''gitea/'' @ b \<in> set (refs repo)"
    and "compare_branches repo b d = Inl e"
  shows "verdict repo b = Broken e"
  using assms by (auto simp: compare_branches_def verdict_def Let_def split: sum.splits if_splits)

lemma analyze_branch_alone:
  "b \<in> set (github_ahead (fst (analyze_branch repo b (empty_differences, [])))) \<longleftrightarrow> verdict repo b = SourceAhead"
  "b \<in> set (gitea_ahead (fst (analyze_branch repo b (empty_differences, [])))) \<longleftrightarrow> verdict repo b = MirrorAhead"
  "b \<in> set (new_branches_github (fst (analyze_branch repo b (empty_differences, [])))) \<longleftrightarrow> verdict repo b = SourceOnly"
  "b \<in> set (new_branches_gitea (fst (analyze_branch repo b (empty_differences, [])))) \<longleftrightarrow> verdict repo b = MirrorOnly"
  "b \<in> set (diverged_branches (fst (analyze_branch repo b (empty_differences, [])))) \<longleftrightarrow> verdict repo b = Diverged"
  by (auto simp: analyze_branch_verdict record_verdict_def empty_differences_def split: verdict.splits)

text \<open>
  C8. When the comparison of a branch that the loop visits raises, the error is written
  to the logger with the branch, the branch is put under no heading of the report, and
  the loop goes on: every branch it visits stands under exactly the headings that its own
  round of the loop, taken alone, gives it. The analysis has no failing outcome: it
  always delivers a report.
\<close>

theorem broken_branch_skipped:
  assumes "b \<in> set (all_branches repo)"
    and "''origin/'' @ b \<in> set (refs repo)" and "''gitea/'' @ b \<in> set (refs repo)"
    and "compare_branches repo b d0 = Inl e"
  shows "(b, e) \<in> set (snd (analyze_repository_differences repo)) \<and>
         b \<notin> set (github_ahead (fst (analyze_repository_differences repo))) \<and>
         b \<notin> set (gitea_ahead (fst (analyze_repository_differences repo))) \<and>
         b \<notin> set (new_branches_github (fst (analyze_repository_differences repo))) \<and>
         b \<notin> set (new_branches_gitea (fst (analyze_repository_differences repo))) \<and>
         b \<notin> set (diverged_branches (fst (analyze_repository_differences repo))) \<and>
         (\<forall>b' \<in> set (all_branches repo).
            (b' \<in> set (github_ahead (fst (analyze_repository_differences repo)))
               \<longleftrightarrow> b' \<in> set (github_ahead (fst (analyze_branch repo b' (empty_differences, []))))) \<and>
            (b' \<in> set (gitea_ahead (fst (analyze_repository_differences repo)))
               \<longleftrightarrow> b' \<in> set (gitea_ahead (fst (analyze_branch repo b' (empty_differences, []))))) \<and>
            (b' \<in> set (new_branches_github (fst (analyze_repository_differences repo)))
               \<longleftrightarrow> b' \<in> set (new_branches_github (fst (analyze_branch repo b' (empty_differences, []))))) \<and>
            (b' \<in> set (new_branches_gitea (fst (analyze_repository_differences repo)))
               \<longleftrightarrow> b' \<in> set (new_branches_gitea (fst (analyze_branch repo b' (empty_differences, []))))) \<and>
            (b' \<in> set (diverged_branches (fst (analyze_repository_differences repo)))
               \<longleftrightarrow> b' \<in> set (diverged_branches (fst (analyze_branch repo b' (empty_differences, []))))))"
proof -
  have v: "verdict repo b = Broken e"
    using assms(2-4) by (rule verdict_broken)
  have logged: "(b, e) \<in> set (snd (analyze_repository_differences repo))"
    using assms(1) v by (simp add: logged_iff)
  have lists: "b \<notin> set (github_ahead (fst (analyze_repository_differences repo)))"
    "b \<notin> set (gitea_ahead (fst (analyze_repository_differences repo)))"
    "b \<notin> set (new_branches_github (fst (analyze_repository_differences repo)))"
    "b \<notin> set (new_branches_gitea (fst (analyze_repository_differences repo)))"
    "b \<notin> set (diverged_branches (fst (analyze_repository_differences repo)))"
    by (simp_all add: github_ahead_iff gitea_ahead_iff new_branches_github_iff
          new_branches_gitea_iff diverged_branches_iff v)
  have others: "\<forall>b' \<in> set (all_branches repo).
            (b' \<in> set (github_ahead (fst (analyze_repository_differences repo)))
               \<longleftrightarrow> b' \<in> set (github_ahead (fst (analyze_branch repo b' (empty_differences, []))))) \<and>
            (b' \<in> set (gitea_ahead (fst (analyze_repository_differences repo)))
               \<longleftrightarrow> b' \<in> set (gitea_ahead (fst (analyze_branch repo b' (empty_differences, []))))) \<and>
            (b' \<in> set (new_branches_github (fst (analyze_repository_differences repo)))
               \<longleftrightarrow> b' \<in> set (new_branches_github (fst (analyze_branch repo b' (empty_differences, []))))) \<and>
            (b' \<in> set (new_branches_gitea (fst (analyze_repository_differences repo)))
               \<longleftrightarrow> b' \<in> set (new_branches_gitea (fst (analyze_branch repo b' (empty_differences, []))))) \<and>
            (b' \<in> set (diverged_branches (fst (analyze_repository_differences repo)))
               \<longleftrightarrow> b' \<in> set (diverged_branches (fst (analyze_branch repo b' (empty_differences, [])))))"
    by (simp add: github_ahead_iff gitea_ahead_iff new_branches_github_iff
          new_branches_gitea_iff diverged_branches_iff analyze_branch_alone)
  from logged lists others show ?thesis by blast
qed

theorem broken_branch_skipped_witness:
  "(''wip'', GitCommandError) \<in> set (snd (analyze_repository_differences epsilon_repo)) \<and>
   ''wip'' \<notin> set (github_ahead (fst (analyze_repository_differences epsilon_repo))) \<and>
   ''main'' \<in> set (all_branches epsilon_repo) \<and>
   ''main'' \<in> set (github_ahead (fst (analyze_branch epsilon_repo ''main'' (empty_differences, [])))) \<and>
   ''main'' \<in> set (github_ahead (fst (analyze_repository_differences epsilon_repo)))"
proof -
  have listed: "''wip'' \<in> set (all_branches epsilon_repo)"
    by code_simp
  have refs: "''origin/'' @ ''wip'' \<in> set (refs epsilon_repo)" "''gitea/'' @ ''wip'' \<in> set (refs epsilon_repo)"
    by (simp_all add: epsilon_repo_def demo_repo_def)
  have raised: "compare_branches epsilon_repo ''wip'' empty_differences = Inl GitCommandError"
    by (simp add: compare_branches_def epsilon_repo_def demo_repo_def)
  have main: "''main'' \<in> set (all_branches epsilon_repo)"
    by code_simp
  have alone: "''main'' \<in> set (github_ahead (fst (analyze_branch epsilon_repo ''main'' (empty_differences, []))))"
    by code_simp
  show ?thesis
    using broken_branch_skipped [OF listed refs raised] main alone by blast
qed

lemma verdict_diverged:
  assumes "''origin/'' @ b \<in> set (refs repo)" and "''gitea/'' @ b \<in> set (refs repo)"
    and "commit repo (''origin/'' @ b) = Inr h1" and "commit repo (''gitea/'' @ b) = Inr h2"
    and "h1 \<noteq> h2"
    and "iter_commits repo (''gitea/'' @ b @ ''..'' @ ''origin/'' @ b) = Inr ahead" and "ahead \<noteq> []"
    and "iter_commits repo (''origin/'' @ b @ ''..'' @ ''gitea/'' @ b) = Inr behind" and "behind \<noteq> []"
  shows "verdict repo b = Diverged"
  using assms by (simp add: verdict_def)

text \<open>
  A branch that the loop visits, with different tips and commits on each side that the
  other lacks, is listed as diverged and sets the flag.
\<close>

lemma visited_diverged_branch_listed:
  assumes "b \<in> set (all_branches repo)"
    and "''origin/'' @ b \<in> set (refs repo)" and "''gitea/'' @ b \<in> set (refs repo)"
    and "commit repo (''origin/'' @ b) = Inr h1" and "commit repo (''gitea/'' @ b) = Inr h2"
    and "h1 \<noteq> h2"
    and "iter_commits repo (''gitea/'' @ b @ ''..'' @ ''origin/'' @ b) = Inr ahead" and "ahead \<noteq> []"
    and "iter_commits repo (''origin/'' @ b @ ''..'' @ ''gitea/'' @ b) = Inr behind" and "behind \<noteq> []"
  shows "b \<in> set (diverged_branches (fst (analyze_repository_differences repo))) \<and>
         has_conflicts (fst (analyze_repository_differences repo))"
proof -
  have "verdict repo b = Diverged"
    using assms(2-) by (rule verdict_diverged)
  with assms(1) have "b \<in> set (diverged_branches (fst (analyze_repository_differences repo)))"
    by (simp add: diverged_branches_iff)
  then show ?thesis
    by (auto simp: has_conflicts_iff)
qed

text \<open>
  Under \<^verbatim>\<open>manual\<close> a report with conflicts makes resolution raise the error that names
  the diverged branches, with the state untouched: no push.
\<close>

lemma resolve_manual:
  assumes "has_conflicts d" and "conflict_resolution (settings env) = Manual"
  shows "resolve env d st = (st, Inl (SyncConflictError (diverged_branches d)))"
    and "resolution_pushes (settings env) d = []"
  using assms by (simp_all add: resolve_def handle_sync_conflicts_def resolution_pushes_def)

text \<open>
  Under \<^verbatim>\<open>github_wins\<close> and \<^verbatim>\<open>gitea_wins\<close> the pushes are one forced push per diverged
  branch, from the winning side to the other, and the analysis lists no branch twice.
\<close>

lemma concat_conflict_push:
  "concat (map (conflict_push GithubWins) bs) = map (\<lambda>b. Push ''gitea'' (''origin/'' @ b) b True) bs"
  "concat (map (conflict_push GiteaWins) bs) = map (\<lambda>b. Push ''origin'' (''gitea/'' @ b) b True) bs"
  by (induction bs) (simp_all add: conflict_push_def)

lemma resolution_pushes_wins:
  assumes "has_conflicts d"
  shows "conflict_resolution s = GithubWins \<Longrightarrow>
           resolution_pushes s d
             = map (\<lambda>b. Push ''gitea'' (''origin/'' @ b) b True) (diverged_branches d)"
    and "conflict_resolution s = GiteaWins \<Longrightarrow>
           resolution_pushes s d
             = map (\<lambda>b. Push ''origin'' (''gitea/'' @ b) b True) (diverged_branches d)"
  using assms by (simp_all add: resolution_pushes_def concat_conflict_push)

text \<open>
  C2, at the input on which the code departs from it. In repository \<open>zeta\<close> the branch
  \<^verbatim>\<open>gitea/origin/z\<close> is on both remotes, its tips differ and each side has a commit that
  the other lacks. The names that the loop visits are \<^verbatim>\<open>main\<close>, \<^verbatim>\<open>gitea/z\<close> and
  \<^verbatim>\<open>origin/z\<close>, since \<^verbatim>\<open>replace\<close> deletes the prefix text inside the name as well. The
  branch is compared by no round, the report has no conflict, and under the policy
  \<^verbatim>\<open>manual\<close> the sync ends as \<^verbatim>\<open>synced\<close> without naming it.
\<close>

theorem nested_prefix_branch_missed:
  "''origin/'' @ ''gitea/origin/z'' \<in> set (refs zeta_repo) \<and>
   ''gitea/'' @ ''gitea/origin/z'' \<in> set (refs zeta_repo) \<and>
   commit zeta_repo (''origin/'' @ ''gitea/origin/z'') = Inr ''P'' \<and>
   commit zeta_repo (''gitea/'' @ ''gitea/origin/z'') = Inr ''Q'' \<and>
   iter_commits zeta_repo (''gitea/'' @ ''gitea/origin/z'' @ ''..'' @ ''origin/'' @ ''gitea/origin/z'') = Inr [''P''] \<and>
   iter_commits zeta_repo (''origin/'' @ ''gitea/origin/z'' @ ''..'' @ ''gitea/'' @ ''gitea/origin/z'') = Inr [''Q''] \<and>
   all_branches zeta_repo = [''gitea/z'', ''main'', ''origin/z''] \<and>
   diverged_branches (fst (analyze_repository_differences zeta_repo)) = [] \<and>
   \<not> has_conflicts (fst (analyze_repository_differences zeta_repo)) \<and>
   snd (sync_repository (demo_env Manual zeta_repo) ''zeta'' empty_state)
     = Inr (Synced [''synced_tags''])"
  by code_simp














section \<open>Properties of the orchestrator\<close>

lemma update_repo_status_others [simp]:
  "logs (update_repo_status now n s st) = logs st"
  "conflicts (update_repo_status now n s st) = conflicts st"
  "pushed (update_repo_status now n s st) = pushed st"
  "created (update_repo_status now n s st) = created st"
  "warnings (update_repo_status now n s st) = warnings st"
  "healthy (update_repo_status now n s st) = healthy st"
  by (simp_all add: update_repo_status_def split: option.splits)

lemma log_sync_result_others [simp]:
  "repositories (log_sync_result now n s dets st) = repositories st"
  "conflicts (log_sync_result now n s dets st) = conflicts st"
  "pushed (log_sync_result now n s dets st) = pushed st"
  "created (log_sync_result now n s dets st) = created st"
  "warnings (log_sync_result now n s dets st) = warnings st"
  "healthy (log_sync_result now n s dets st) = healthy st"
  by (simp_all add: log_sync_result_def)

lemma ensure_repository_record_others [simp]:
  "logs (ensure_repository_record env n gh gt st) = logs st"
  "conflicts (ensure_repository_record env n gh gt st) = conflicts st"
  "pushed (ensure_repository_record env n gh gt st) = pushed st"
  "created (ensure_repository_record env n gh gt st) = created st"
  "warnings (ensure_repository_record env n gh gt st) = warnings st"
  "healthy (ensure_repository_record env n gh gt st) = healthy st"
  by (simp_all add: ensure_repository_record_def split: option.splits)

lemma first_by_name_append_new:
  "first_by_name n rows = None \<Longrightarrow> name r = n \<Longrightarrow> first_by_name n (rows @ [r]) = Some r"
  unfolding first_by_name_def by (induction rows) (auto split: if_splits)

lemma first_by_name_append_other:
  "name r \<noteq> m \<Longrightarrow> first_by_name m (rows @ [r]) = first_by_name m rows"
  unfolding first_by_name_def by (induction rows) auto

lemma ensure_repository_record_present:
  "first_by_name n (repositories st) = Some r \<Longrightarrow> ensure_repository_record env n gh gt st = st"
  by (simp add: ensure_repository_record_def)

lemma ensure_repository_record_absent:
  assumes "first_by_name n (repositories st) = None"
  shows "\<exists>r. first_by_name n (repositories (ensure_repository_record env n gh gt st)) = Some r \<and>
             sync_status r = ''pending'' \<and> conflict_count r = 0 \<and> last_sync r = None"
  using assms by (simp add: ensure_repository_record_def first_by_name_append_new)

lemma ensure_repository_record_row:
  "\<exists>r. first_by_name n (repositories (ensure_repository_record env n gh gt st)) = Some r \<and>
       conflict_count r
         = (case first_by_name n (repositories st) of None \<Rightarrow> 0 | Some r0 \<Rightarrow> conflict_count r0)"
proof (cases "first_by_name n (repositories st)")
  case None
  with ensure_repository_record_absent [OF None, of env gh gt] show ?thesis by auto
next
  case (Some r)
  then show ?thesis by (simp add: ensure_repository_record_present)
qed

lemma conflict_count_syncing:
  "first_by_name n (repositories (update_repo_status now n ''syncing'' st))
     = None \<longleftrightarrow> first_by_name n (repositories st) = None"
  "(case first_by_name n (repositories (update_repo_status now n ''syncing'' st)) of
      None \<Rightarrow> 0 | Some r \<Rightarrow> conflict_count r)
     = (case first_by_name n (repositories st) of None \<Rightarrow> (0::int) | Some r \<Rightarrow> conflict_count r)"
  by (cases "first_by_name n (repositories st)";
      simp add: update_repo_status_absent first_by_name_update_repo_status)+

lemma remote_push_frame [simp]:
  "repositories (fst (remote_push env p st)) = repositories st"
  "logs (fst (remote_push env p st)) = logs st"
  "conflicts (fst (remote_push env p st)) = conflicts st"
  "healthy (fst (remote_push env p st)) = healthy st"
  by (simp_all add: remote_push_def split: push_outcome.splits)

lemma create_gitea_from_github_frame [simp]:
  "repositories (fst (create_gitea_from_github env n st)) = repositories st"
  "logs (fst (create_gitea_from_github env n st)) = logs st"
  "conflicts (fst (create_gitea_from_github env n st)) = conflicts st"
  "healthy (fst (create_gitea_from_github env n st)) = healthy st"
  by (simp_all add: create_gitea_from_github_def remote_push_def
        split: sum.splits prod.splits push_outcome.splits)

lemma create_github_from_gitea_frame [simp]:
  "repositories (fst (create_github_from_gitea env n st)) = repositories st"
  "logs (fst (create_github_from_gitea env n st)) = logs st"
  "conflicts (fst (create_github_from_gitea env n st)) = conflicts st"
  "healthy (fst (create_github_from_gitea env n st)) = healthy st"
  by (simp_all add: create_github_from_gitea_def remote_push_def
        split: sum.splits prod.splits push_outcome.splits)

lemma fst_case_push_all:
  "fst (case git_push_all env ps st of
          (st', Inl e) \<Rightarrow> (st', Inl e)
        | (st', Inr u) \<Rightarrow> (st', Inr (f u)))
     = fst (git_push_all env ps st)"
  by (cases "git_push_all env ps st") (auto split: sum.splits)

lemma resolve_frame [simp]:
  "repositories (fst (resolve env d st)) = repositories st"
  "logs (fst (resolve env d st)) = logs st"
  "conflicts (fst (resolve env d st)) = conflicts st"
  "healthy (fst (resolve env d st)) = healthy st"
  by (simp_all add: resolve_def perform_simple_sync_def handle_sync_conflicts_def
        fst_case_push_all git_push_all_frame)

lemma sync_existing_repositories_frame [simp]:
  "repositories (fst (sync_existing_repositories env n st)) = repositories st"
  "logs (fst (sync_existing_repositories env n st)) = logs st"
  "conflicts (fst (sync_existing_repositories env n st)) = conflicts st"
  "healthy (fst (sync_existing_repositories env n st)) = healthy st"
  by (simp_all add: sync_existing_repositories_def split: sum.splits)

lemma fst_case_created:
  "fst (case x of (st', Inl e) \<Rightarrow> (st', Inl e) | (st', Inr u) \<Rightarrow> (st', Inr (f u))) = fst x"
  by (cases x) (auto split: sum.splits)

lemma perform_bidirectional_sync_frame [simp]:
  "repositories (fst (perform_bidirectional_sync env n gh gt st)) = repositories st"
  "logs (fst (perform_bidirectional_sync env n gh gt st)) = logs st"
  "conflicts (fst (perform_bidirectional_sync env n gh gt st)) = conflicts st"
  "healthy (fst (perform_bidirectional_sync env n gh gt st)) = healthy st"
  by (simp_all add: perform_bidirectional_sync_def Let_def fst_case_created)

lemma sync_attempt_frame [simp]:
  "logs (fst (sync_attempt env n st)) = logs st"
  "conflicts (fst (sync_attempt env n st)) = conflicts st"
  "healthy (fst (sync_attempt env n st)) = healthy st"
  by (simp_all add: sync_attempt_def split: sum.splits)


text \<open>
  C1, as the code has it. When both platforms have the repository, the clone and the
  fetch succeed, the analysis finds a conflict and the policy is \<^verbatim>\<open>manual\<close>, the attempt
  raises the conflict error naming the diverged branches; the row of the repository has
  the status \<^verbatim>\<open>conflict\<close> and a conflict counter one higher than before (one, when the
  row is new); one log row with the status \<^verbatim>\<open>conflict\<close> is appended; nothing is pushed.
  The table of conflict records is left as it was.
\<close>

theorem manual_conflict_recorded:
  assumes github: "github_get_repository env n = Inr (Some gh)"
    and gitea: "gitea_get_repository env n = Inr (Some gt)"
    and clone: "clone_from env (github_clone_url (settings env) n) = Inr repo0"
    and fetch: "fetch_remote env repo0 ''gitea'' (gitea_clone_url (settings env) n) = Inr repo"
    and conflict: "has_conflicts (fst (analyze_repository_differences repo))"
    and manual: "conflict_resolution (settings env) = Manual"
  shows "snd (sync_repository env n st)
           = Inl (SyncConflictError (diverged_branches (fst (analyze_repository_differences repo)))) \<and>
         diverged_branches (fst (analyze_repository_differences repo)) \<noteq> [] \<and>
         (\<exists>r. first_by_name n (repositories (fst (sync_repository env n st))) = Some r \<and>
              sync_status r = ''conflict'' \<and>
              conflict_count r
                = (case first_by_name n (repositories st) of None \<Rightarrow> 0 | Some r0 \<Rightarrow> conflict_count r0) + 1) \<and>
         logs (fst (sync_repository env n st))
           = logs st @
             [\<lparr>repository_name = n, log_status = ''conflict'',
               details = ErrorDetails (SyncConflictError
                 (diverged_branches (fst (analyze_repository_differences repo)))),
               timestamp = utcnow env\<rparr>] \<and>
         pushed (fst (sync_repository env n st)) = pushed st \<and>
         conflicts (fst (sync_repository env n st)) = conflicts st"
proof -
  let ?d = "fst (analyze_repository_differences repo)"
  let ?st1 = "sync_begin env n st"
  let ?st2 = "ensure_repository_record env n (Some gh) (Some gt) ?st1"
  let ?st3 = "?st2\<lparr>warnings := warnings ?st2 @ snd (analyze_repository_differences repo)\<rparr>"
  have existing: "sync_existing_repositories env n ?st2 = (?st3, Inl (SyncConflictError (diverged_branches ?d)))"
    using clone fetch resolve_manual(1) [OF conflict manual]
    by (simp add: sync_existing_repositories_def)
  have attempt: "sync_attempt env n ?st1 = (?st3, Inl (SyncConflictError (diverged_branches ?d)))"
    using github gitea existing
    by (simp add: sync_attempt_def perform_bidirectional_sync_def)
  have whole: "sync_repository env n st
      = (log_sync_result (utcnow env) n ''conflict'' (ErrorDetails (SyncConflictError (diverged_branches ?d)))
           (update_repo_status (utcnow env) n ''conflict'' ?st3),
         Inl (SyncConflictError (diverged_branches ?d)))"
    by (simp add: sync_repository_def attempt)
  obtain r2 where r2: "first_by_name n (repositories ?st2) = Some r2"
    and count2: "conflict_count r2
       = (case first_by_name n (repositories st) of None \<Rightarrow> 0 | Some r0 \<Rightarrow> conflict_count r0)"
    using ensure_repository_record_row [of n env "Some gh" "Some gt" ?st1]
    by (auto simp: sync_begin_def conflict_count_syncing)
  have r3: "first_by_name n (repositories ?st3) = Some r2"
    using r2 by simp
  have row: "first_by_name n (repositories (fst (sync_repository env n st)))
      = Some (commit_row (utcnow env) r2 (set_status (utcnow env) ''conflict'' r2))"
    using first_by_name_update_repo_status [OF r3] by (simp add: whole)
  have named: "diverged_branches ?d \<noteq> []"
    using conflict by (simp add: has_conflicts_iff)
  have logged: "logs (fst (sync_repository env n st))
           = logs st @
             [\<lparr>repository_name = n, log_status = ''conflict'',
               details = ErrorDetails (SyncConflictError (diverged_branches ?d)),
               timestamp = utcnow env\<rparr>]"
    by (simp add: whole log_sync_result_def sync_begin_def)
  have quiet: "pushed (fst (sync_repository env n st)) = pushed st"
    "conflicts (fst (sync_repository env n st)) = conflicts st"
    by (simp_all add: whole sync_begin_def)
  from whole named row count2 logged quiet show ?thesis by simp
qed

theorem manual_conflict_recorded_witness:
  "snd (sync_repository (demo_env Manual gamma_repo) ''gamma'' empty_state)
     = Inl (SyncConflictError [''main'']) \<and>
   (\<exists>r. first_by_name ''gamma''
          (repositories (fst (sync_repository (demo_env Manual gamma_repo) ''gamma'' empty_state))) = Some r \<and>
        sync_status r = ''conflict'' \<and> conflict_count r = 1) \<and>
   pushed (fst (sync_repository (demo_env Manual gamma_repo) ''gamma'' empty_state)) = []"
proof -
  have github: "github_get_repository (demo_env Manual gamma_repo) ''gamma''
      = Inr (Some \<lparr>clone_url = ''https://github.com/dev/gamma.git''\<rparr>)"
    and gitea: "gitea_get_repository (demo_env Manual gamma_repo) ''gamma''
      = Inr (Some \<lparr>clone_url = ''http://gitea:3000/dev/gamma.git''\<rparr>)"
    and clone: "clone_from (demo_env Manual gamma_repo)
        (github_clone_url (settings (demo_env Manual gamma_repo)) ''gamma'')
      = Inr (gamma_repo\<lparr>refs := filter (\<lambda>n. \<not> startswith n ''gitea/'') (refs gamma_repo)\<rparr>)"
    and fetch: "fetch_remote (demo_env Manual gamma_repo)
        (gamma_repo\<lparr>refs := filter (\<lambda>n. \<not> startswith n ''gitea/'') (refs gamma_repo)\<rparr>) ''gitea''
        (gitea_clone_url (settings (demo_env Manual gamma_repo)) ''gamma'')
      = Inr gamma_repo"
    and manual: "conflict_resolution (settings (demo_env Manual gamma_repo)) = Manual"
    by (simp_all add: demo_env_def demo_settings_def)
  have conflict: "has_conflicts (fst (analyze_repository_differences gamma_repo))"
    by code_simp
  have named: "diverged_branches (fst (analyze_repository_differences gamma_repo)) = [''main'']"
    by code_simp
  have fresh: "first_by_name ''gamma'' (repositories empty_state) = None"
    "pushed empty_state = []"
    by (simp_all add: empty_state_def first_by_name_def)
  show ?thesis
    using manual_conflict_recorded [OF github gitea clone fetch conflict manual, of empty_state]
    by (simp add: named fresh)
qed

text \<open>
  C1 as stated fails on repository \<open>gamma\<close> under \<^verbatim>\<open>manual\<close>: \<open>main\<close> has diverged, the
  attempt ends in the conflict error and the row says \<^verbatim>\<open>conflict\<close>, but the table of
  conflict records is empty afterwards: no record for \<open>main\<close> is created.
\<close>

theorem conflict_record_counterexample:
  "diverged_branches (fst (analyze_repository_differences gamma_repo)) = [''main''] \<and>
   conflict_resolution (settings (demo_env Manual gamma_repo)) = Manual \<and>
   snd (sync_repository (demo_env Manual gamma_repo) ''gamma'' empty_state)
     = Inl (SyncConflictError [''main'']) \<and>
   map sync_status (repositories (fst (sync_repository (demo_env Manual gamma_repo) ''gamma'' empty_state)))
     = [''conflict''] \<and>
   conflicts (fst (sync_repository (demo_env Manual gamma_repo) ''gamma'' empty_state)) = []"
  by code_simp





section \<open>Properties of the whole-fleet sync\<close>

lemma sync_conclude_logs:
  "\<exists>entry. logs (fst (sync_conclude env n (st, res))) = logs st @ [entry] \<and>
      repository_name entry = n"
proof (cases res)
  case (Inl e)
  then show ?thesis by (cases e) (simp_all add: log_sync_result_def)
next
  case (Inr r)
  then show ?thesis by (simp add: log_sync_result_def)
qed

lemma snd_sync_conclude [simp]: "snd (sync_conclude env n x) = snd x"
proof (cases x)
  case (Pair st res)
  show ?thesis
  proof (cases res)
    case (Inl e)
    with Pair show ?thesis by (cases e) simp_all
  next
    case (Inr r)
    with Pair show ?thesis by simp
  qed
qed

lemma healthy_sync_conclude [simp]: "healthy (fst (sync_conclude env n x)) = healthy (fst x)"
proof (cases x)
  case (Pair st res)
  show ?thesis
  proof (cases res)
    case (Inl e)
    with Pair show ?thesis by (cases e) simp_all
  next
    case (Inr r)
    with Pair show ?thesis by simp
  qed
qed

lemma sync_repository_logs:
  "\<exists>entry. logs (fst (sync_repository env n st)) = logs st @ [entry] \<and>
      repository_name entry = n"
proof -
  obtain st' res where attempt: "sync_attempt env n (sync_begin env n st) = (st', res)"
    by (cases "sync_attempt env n (sync_begin env n st)")
  have "logs (fst (sync_attempt env n (sync_begin env n st))) = logs st"
    by (simp add: sync_begin_def)
  then have "logs st' = logs st"
    unfolding attempt by simp
  with sync_conclude_logs [of env n st' res] show ?thesis
    by (simp add: sync_repository_def attempt)
qed

lemma sync_repository_healthy [simp]:
  "healthy (fst (sync_repository env n st)) = healthy st"
  by (simp add: sync_repository_def sync_begin_def)

lemma gather_syncs_Cons [simp]:
  "fst (gather_syncs env (n # ns) st) = fst (gather_syncs env ns (fst (sync_repository env n st)))"
  "snd (gather_syncs env (n # ns) st)
     = snd (sync_repository env n st) # snd (gather_syncs env ns (fst (sync_repository env n st)))"
  by (cases "sync_repository env n st"; cases "gather_syncs env ns (fst (sync_repository env n st))"; simp)+

declare gather_syncs.simps(2) [simp del]

lemma gather_syncs_length [simp]:
  "length (snd (gather_syncs env ns st)) = length ns"
  by (induction ns arbitrary: st) simp_all

lemma gather_syncs_healthy [simp]:
  "healthy (fst (gather_syncs env ns st)) = healthy st"
proof (induction ns arbitrary: st)
  case Nil
  show ?case by simp
next
  case (Cons n ns)
  have "healthy (fst (gather_syncs env ns (fst (sync_repository env n st)))) = healthy st"
    by (simp add: Cons.IH)
  then show ?case by simp
qed

lemma gather_syncs_logs:
  "\<exists>entries. logs (fst (gather_syncs env ns st)) = logs st @ entries \<and>
      map repository_name entries = ns"
proof (induction ns arbitrary: st)
  case Nil
  show ?case by (rule exI [of _ "[]"]) simp
next
  case (Cons n ns)
  from sync_repository_logs [of env n st]
  obtain entry where entry: "logs (fst (sync_repository env n st)) = logs st @ [entry]"
    and entry_name: "repository_name entry = n"
    by (elim exE conjE)
  from Cons.IH [of "fst (sync_repository env n st)"]
  obtain entries where entries:
    "logs (fst (gather_syncs env ns (fst (sync_repository env n st))))
       = logs (fst (sync_repository env n st)) @ entries"
    and entries_names: "map repository_name entries = ns"
    by (elim exE conjE)
  have "logs (fst (gather_syncs env (n # ns) st))
          = logs (fst (gather_syncs env ns (fst (sync_repository env n st))))"
    by (simp only: gather_syncs_Cons)
  also have "\<dots> = logs (fst (sync_repository env n st)) @ entries"
    by (rule entries)
  also have "\<dots> = (logs st @ [entry]) @ entries"
    by (simp only: entry)
  also have "\<dots> = logs st @ (entry # entries)"
    by simp
  finally have all: "logs (fst (gather_syncs env (n # ns) st)) = logs st @ (entry # entries)" .
  have names: "map repository_name (entry # entries) = n # ns"
    by (simp only: list.map entry_name entries_names)
  from all names show ?case
    by (intro exI [of _ "entry # entries"] conjI)
qed

lemma gather_syncs_nth:
  "i < length ns \<Longrightarrow>
   snd (gather_syncs env ns st) ! i
     = snd (sync_repository env (ns ! i) (fst (gather_syncs env (take i ns) st)))"
proof (induction ns arbitrary: st i)
  case Nil
  then show ?case by simp
next
  case (Cons n ns)
  show ?case
  proof (cases i)
    case 0
    then show ?thesis by simp
  next
    case (Suc j)
    with Cons.prems have "j < length ns" by simp
    from Cons.IH [OF this, of "fst (sync_repository env n st)"] Suc
    show ?thesis by simp
  qed
qed

text \<open>
  C5, as the code has it. When discovery succeeds and the semaphore has at least one permit,
  the whole-fleet sync runs a sync for every discovered repository: the outcome of each is
  that of \<^verbatim>\<open>sync_repository\<close> on the state that the syncs before it left, whether those
  succeeded or failed; every repository gets its log row; the health flag stays; the call
  raises nothing. What the call returns is \<^verbatim>\<open>None\<close>: the gathered outcomes are dropped.
\<close>

theorem fleet_sync_isolates_failures:
  assumes "discover_repositories env = Inr repos"
    and "1 \<le> max_concurrent_syncs (settings env)"
    and "repo_name = None \<or> repo_name = Some []"
  shows "sync_repositories env repo_name st = (fst (gather_syncs env repos st), Returns None) \<and>
         length (snd (gather_syncs env repos st)) = length repos \<and>
         (\<forall>i < length repos.
            snd (gather_syncs env repos st) ! i
              = snd (sync_repository env (repos ! i) (fst (gather_syncs env (take i repos) st)))) \<and>
         (\<exists>entries. logs (fst (sync_repositories env repo_name st)) = logs st @ entries \<and>
              map repository_name entries = repos) \<and>
         healthy (fst (sync_repositories env repo_name st)) = healthy st"
proof -
  have whole: "sync_repositories env repo_name st = (fst (gather_syncs env repos st), Returns None)"
    using assms by (auto simp: sync_repositories_def)
  from whole gather_syncs_logs [of env repos st] gather_syncs_nth [of _ repos env st]
  show ?thesis by simp
qed

theorem fleet_sync_isolates_failures_witness:
  "sync_repositories fleet_env None empty_state
     = (fst (gather_syncs fleet_env [''alpha'', ''beta''] empty_state), Returns None) \<and>
   length (snd (gather_syncs fleet_env [''alpha'', ''beta''] empty_state)) = 2 \<and>
   snd (sync_repository fleet_env ''alpha'' empty_state) = Inl HTTPError \<and>
   snd (gather_syncs fleet_env [''alpha'', ''beta''] empty_state) ! 1
     = snd (sync_repository fleet_env ''beta'' (fst (sync_repository fleet_env ''alpha'' empty_state))) \<and>
   snd (sync_repository fleet_env ''beta'' (fst (sync_repository fleet_env ''alpha'' empty_state)))
     = Inr (Synced [''synced_to_github: main'', ''synced_tags''])"
proof -
  have found: "discover_repositories fleet_env = Inr [''alpha'', ''beta'']"
    by code_simp
  have permits: "1 \<le> max_concurrent_syncs (settings fleet_env)"
    by (simp add: fleet_env_def demo_env_def demo_settings_def)
  have first: "snd (sync_repository fleet_env ''alpha'' empty_state) = Inl HTTPError"
    by code_simp
  have second: "snd (sync_repository fleet_env ''beta'' (fst (sync_repository fleet_env ''alpha'' empty_state)))
     = Inr (Synced [''synced_to_github: main'', ''synced_tags''])"
    by code_simp
  have one: "take 1 [''alpha'', ''beta''] = [''alpha'']" "[''alpha'', ''beta''] ! 1 = ''beta''"
    "(1::nat) < length [''alpha'', ''beta'']"
    by simp_all
  from fleet_sync_isolates_failures [OF found permits, of None empty_state]
  show ?thesis
    using first second one by simp
qed

text \<open>
  C5 as stated fails on the fleet of \<open>alpha\<close> and \<open>beta\<close>: both syncs run, the first
  fails and the second succeeds, but the call returns \<^verbatim>\<open>None\<close> and not the two outcomes.
\<close>

theorem fleet_results_counterexample:
  "discover_repositories fleet_env = Inr [''alpha'', ''beta''] \<and>
   snd (gather_syncs fleet_env [''alpha'', ''beta''] empty_state)
     = [Inl HTTPError, Inr (Synced [''synced_to_github: main'', ''synced_tags''])] \<and>
   snd (sync_repositories fleet_env None empty_state) = Returns None"
  by code_simp

section \<open>Properties of syncs in flight\<close>





text \<open>The schedule in which every coroutine of the pass is admitted and ends before the next
  one is admitted leaves the state that \<open>gather_syncs\<close> computes.\<close>

lemma run_append:
  "run env (xs @ ys) e = (case run env xs e of None \<Rightarrow> None | Some e' \<Rightarrow> run env ys e')"
  by (induction xs arbitrary: e) (auto split: option.splits)

lemma run_one_after_the_other:
  "0 < g \<Longrightarrow>
   run env (concat (map (\<lambda>n. [Admit n, Release n]) repos)) (fleet_pass g repos st)
     = Some (fleet_pass g [] (fst (gather_syncs env repos st)))"
proof (induction repos arbitrary: st)
  case Nil
  show ?case by simp
next
  case (Cons n ns)
  have "sync_rest env n (sync_begin env n st) = fst (sync_repository env n st)"
    by (simp add: sync_rest_def sync_repository_def)
  with Cons.prems have one: "run env [Admit n, Release n] (fleet_pass g (n # ns) st)
      = Some (fleet_pass g ns (fst (sync_repository env n st)))"
    by (simp add: fleet_pass_def)
  have "concat (map (\<lambda>n. [Admit n, Release n]) (n # ns))
      = [Admit n, Release n] @ concat (map (\<lambda>n. [Admit n, Release n]) ns)"
    by simp
  then have "run env (concat (map (\<lambda>n. [Admit n, Release n]) (n # ns))) (fleet_pass g (n # ns) st)
      = run env (concat (map (\<lambda>n. [Admit n, Release n]) ns)) (fleet_pass g ns (fst (sync_repository env n st)))"
    by (simp only: run_append one option.case)
  with Cons.IH [OF Cons.prems] show ?case by simp
qed




end
